theory Spec2Isabelle
  imports Complex_Main "HOL-Library.Word" "HOL-Library.Char_ord" "HOL-Library.List_Lexorder"
    "HOL-Library.Multiset"
begin

section \<open>Data model of \<^verbatim>\<open>src/filesystem/demo.py\<close>\<close>

text \<open>
  The Python classes become records, the enum a datatype. Python \<^verbatim>\<open>bytes\<close> is a list of
  8-bit words, \<^verbatim>\<open>str\<close> is \<^typ>\<open>string\<close>, \<^verbatim>\<open>int\<close> is \<^typ>\<open>int\<close>; the \<^verbatim>\<open>float\<close> time stamps
  are only stored and never computed with, they are carried as \<^typ>\<open>real\<close>.
  Field names follow the source; \<^verbatim>\<open>size\<close>, \<^verbatim>\<open>term\<close>, \<^verbatim>\<open>log\<close> and the second uses of
  \<^verbatim>\<open>path\<close> and \<^verbatim>\<open>metadata\<close> carry a prefix or suffix, since one theory cannot declare a
  field name twice or reuse a name of HOL.

  The reentrant locks are left out: every method body runs under the lock of its object,
  and the model is the sequential behaviour of the methods. Console output is left out.
\<close>

type_synonym bytes = "8 word list"

record FileMetadata =
  path :: string
  content_hash :: string
  size_f :: int
  created_time :: real
  is_directory :: bool

datatype OperationType = CREATE_FILE | CREATE_DIR | DELETE

record Operation =
  op_id :: string
  op_type :: OperationType
  op_path :: string
  op_metadata :: "FileMetadata option"
  op_timestamp :: real

record RaftLogEntry =
  entry_term :: int
  operation :: Operation
  committed :: bool

text \<open>The exceptions the modelled code can raise.\<close>

datatype error =
  ValueError      \<comment> \<open>raised by \<^verbatim>\<open>retrieve\<close>: content integrity violation\<close>
  | AttributeError  \<comment> \<open>attribute access on \<^verbatim>\<open>None\<close>\<close>

section \<open>ContentAddressableStorage\<close>

text \<open>
  \<^verbatim>\<open>hashlib.sha256(content).hexdigest()\<close> is library code; every function that hashes takes
  the digest function as its first argument \<open>H\<close>. The dictionary \<^verbatim>\<open>_storage\<close> is never
  iterated, so it is a map.
\<close>

record ContentAddressableStorage =
  storage :: "string \<rightharpoonup> bytes"

definition ContentAddressableStorage_init :: ContentAddressableStorage where
  "ContentAddressableStorage_init = \<lparr>storage = Map.empty\<rparr>"

definition store ::
  "(bytes \<Rightarrow> string) \<Rightarrow> bytes \<Rightarrow> ContentAddressableStorage \<Rightarrow> string \<times> ContentAddressableStorage"
where
  "store H content cas =
     (let h = H content in
      if storage cas h = None
      then (h, cas\<lparr>storage := (storage cas)(h \<mapsto> content)\<rparr>)
      else (h, cas))"

definition retrieve ::
  "(bytes \<Rightarrow> string) \<Rightarrow> ContentAddressableStorage \<Rightarrow> string \<Rightarrow> error + bytes option"
where
  "retrieve H cas h =
     (case storage cas h of
        None \<Rightarrow> Inr None
      | Some content \<Rightarrow>
          (let actual_hash = H content in
           if actual_hash \<noteq> h then Inl ValueError else Inr (Some content)))"

definition exists_cas :: "ContentAddressableStorage \<Rightarrow> string \<Rightarrow> bool" where
  "exists_cas cas h = (storage cas h \<noteq> None)"

section \<open>MetadataService\<close>

text \<open>
  \<^verbatim>\<open>_metadata\<close> is iterated by \<^verbatim>\<open>list_directory\<close> and Python dictionaries keep insertion
  order, so it is an association list: assigning a new key appends, assigning an existing
  key replaces the value in place, \<^verbatim>\<open>del\<close> removes the entry. A value is
  \<^typ>\<open>FileMetadata option\<close> because \<^verbatim>\<open>_apply_operation\<close> stores \<^verbatim>\<open>operation.metadata\<close>,
  which is \<^verbatim>\<open>Optional[FileMetadata]\<close>.
\<close>

type_synonym namespace = "(string \<times> FileMetadata option) list"

fun dict_set :: "'k \<Rightarrow> 'v \<Rightarrow> ('k \<times> 'v) list \<Rightarrow> ('k \<times> 'v) list" where
  "dict_set k v [] = [(k, v)]"
| "dict_set k v (kv # rest) =
     (if fst kv = k then (k, v) # rest else kv # dict_set k v rest)"

definition dict_del :: "'k \<Rightarrow> ('k \<times> 'v) list \<Rightarrow> ('k \<times> 'v) list" where
  "dict_del k d = filter (\<lambda>kv. fst kv \<noteq> k) d"

definition dict_keys :: "('k \<times> 'v) list \<Rightarrow> 'k list" where
  "dict_keys d = map fst d"

record MetadataService =
  node_id :: string
  is_leader :: bool
  current_term :: int
  ms_metadata :: namespace
  ms_log :: "RaftLogEntry list"
  commit_index :: int

definition MetadataService_init :: "string \<Rightarrow> real \<Rightarrow> MetadataService" where
  "MetadataService_init node now =
     \<lparr>node_id = node, is_leader = True, current_term = 1,
      ms_metadata =
        [(''/'', Some \<lparr>path = ''/'', content_hash = '''', size_f = 0,
                       created_time = now, is_directory = True\<rparr>)],
      ms_log = [], commit_index = - 1\<rparr>"

subsection \<open>\<^verbatim>\<open>_parent_directory\<close>\<close>

definition rstrip :: "char \<Rightarrow> string \<Rightarrow> string" where
  "rstrip c s = rev (dropWhile (\<lambda>x. x = c) (rev s))"

text \<open>\<^verbatim>\<open>s.split(c)\<close> with a one-character separator: never empty, \<^verbatim>\<open>"".split("/") == [""]\<close>.\<close>

fun split :: "char \<Rightarrow> string \<Rightarrow> string list" where
  "split c [] = [[]]"
| "split c (x # xs) =
     (if x = c then [] # split c xs
      else (case split c xs of
              [] \<Rightarrow> [[x]]
            | seg # segs \<Rightarrow> (x # seg) # segs))"

fun join :: "string \<Rightarrow> string list \<Rightarrow> string" where
  "join sep [] = []"
| "join sep [s] = s"
| "join sep (s # t # rest) = s @ sep @ join sep (t # rest)"

definition parent_directory :: "string \<Rightarrow> string" where
  "parent_directory p =
     (if p = ''/'' then ''/''
      else let parts = split CHR ''/'' (rstrip CHR ''/'' p) in
        if length parts \<le> 1 then ''/''
        else let j = join ''/'' (butlast parts) in
          if j = [] then ''/'' else j)"

definition path_exists :: "MetadataService \<Rightarrow> string \<Rightarrow> bool" where
  "path_exists ms p = (p \<in> set (dict_keys (ms_metadata ms)))"

subsection \<open>\<^verbatim>\<open>_apply_operation\<close> and \<^verbatim>\<open>propose_operation\<close>\<close>

definition apply_operation :: "Operation \<Rightarrow> MetadataService \<Rightarrow> bool \<times> MetadataService" where
  "apply_operation opn ms =
     (case op_type opn of
        CREATE_FILE \<Rightarrow>
          (let parent = parent_directory (op_path opn) in
           if \<not> path_exists ms parent then (False, ms)
           else if path_exists ms (op_path opn) then (False, ms)
           else (True, ms\<lparr>ms_metadata :=
                   dict_set (op_path opn) (op_metadata opn) (ms_metadata ms)\<rparr>))
      | CREATE_DIR \<Rightarrow>
          (let parent = parent_directory (op_path opn) in
           if \<not> path_exists ms parent then (False, ms)
           else if path_exists ms (op_path opn) then (False, ms)
           else (let dir_metadata =
                       \<lparr>path = op_path opn, content_hash = '''', size_f = 0,
                        created_time = op_timestamp opn, is_directory = True\<rparr>
                 in (True, ms\<lparr>ms_metadata :=
                       dict_set (op_path opn) (Some dir_metadata) (ms_metadata ms)\<rparr>)))
      | DELETE \<Rightarrow>
          (if \<not> path_exists ms (op_path opn) then (False, ms)
           else (True, ms\<lparr>ms_metadata := dict_del (op_path opn) (ms_metadata ms)\<rparr>)))"

text \<open>
  \<^verbatim>\<open>propose_operation\<close> appends the entry, applies the operation, and then either sets
  \<^verbatim>\<open>committed\<close> on the entry object (which is the last element of the list, since
  \<^verbatim>\<open>_apply_operation\<close> does not touch the log) or pops it.
\<close>

definition propose_operation :: "Operation \<Rightarrow> MetadataService \<Rightarrow> bool \<times> MetadataService" where
  "propose_operation opn ms =
     (if \<not> is_leader ms then (False, ms)
      else
        let log_entry = \<lparr>entry_term = current_term ms, operation = opn, committed = False\<rparr>;
            ms1 = ms\<lparr>ms_log := ms_log ms @ [log_entry]\<rparr>;
            (success, ms2) = apply_operation opn ms1
        in if success
           then (True, ms2\<lparr>ms_log := butlast (ms_log ms2) @ [(last (ms_log ms2))\<lparr>committed := True\<rparr>],
                           commit_index := int (length (ms_log ms2)) - 1\<rparr>)
           else (False, ms2\<lparr>ms_log := butlast (ms_log ms2)\<rparr>))"

text \<open>
  \<^verbatim>\<open>create_file\<close> and \<^verbatim>\<open>create_directory\<close> of the service draw a fresh
  \<^verbatim>\<open>uuid4\<close> and read the clock (twice in \<^verbatim>\<open>create_file\<close>); these are arguments here.
\<close>

definition create_file_op ::
  "string \<Rightarrow> string \<Rightarrow> int \<Rightarrow> string \<Rightarrow> real \<Rightarrow> real \<Rightarrow> Operation"
where
  "create_file_op p h sz uid t_created t_stamp =
     \<lparr>op_id = uid, op_type = CREATE_FILE, op_path = p,
      op_metadata = Some \<lparr>path = p, content_hash = h, size_f = sz,
                          created_time = t_created, is_directory = False\<rparr>,
      op_timestamp = t_stamp\<rparr>"

definition ms_create_file ::
  "string \<Rightarrow> string \<Rightarrow> int \<Rightarrow> string \<Rightarrow> real \<Rightarrow> real \<Rightarrow> MetadataService \<Rightarrow> bool \<times> MetadataService"
where
  "ms_create_file p h sz uid t_created t_stamp ms =
     propose_operation (create_file_op p h sz uid t_created t_stamp) ms"

definition create_directory_op :: "string \<Rightarrow> string \<Rightarrow> real \<Rightarrow> Operation" where
  "create_directory_op p uid t_stamp =
     \<lparr>op_id = uid, op_type = CREATE_DIR, op_path = p, op_metadata = None,
      op_timestamp = t_stamp\<rparr>"

definition ms_create_directory ::
  "string \<Rightarrow> string \<Rightarrow> real \<Rightarrow> MetadataService \<Rightarrow> bool \<times> MetadataService"
where
  "ms_create_directory p uid t_stamp ms =
     propose_operation (create_directory_op p uid t_stamp) ms"

subsection \<open>\<^verbatim>\<open>list_directory\<close> and \<^verbatim>\<open>get_file_metadata\<close>\<close>

text \<open>The loop over \<^verbatim>\<open>self._metadata.items()\<close>, with \<^verbatim>\<open>children\<close> as accumulator.\<close>

fun collect_children :: "string \<Rightarrow> namespace \<Rightarrow> FileMetadata option list \<Rightarrow> FileMetadata option list"
where
  "collect_children p [] children = children"
| "collect_children p ((file_path, metadata) # rest) children =
     (if file_path = p then collect_children p rest children
      else if parent_directory file_path = p
           then collect_children p rest (children @ [metadata])
           else collect_children p rest children)"

text \<open>
  \<^verbatim>\<open>sorted(children, key=lambda x: x.path)\<close>: the key is computed for every element, which
  raises on \<^verbatim>\<open>None\<close>; the sort is stable, and strings compare lexicographically.
\<close>

definition sorted_by_path :: "FileMetadata option list \<Rightarrow> error + FileMetadata list" where
  "sorted_by_path children =
     (if None \<in> set children then Inl AttributeError
      else Inr (sort_key path (map the children)))"

definition ms_list_directory :: "MetadataService \<Rightarrow> string \<Rightarrow> error + FileMetadata list" where
  "ms_list_directory ms p =
     (if \<not> path_exists ms p then Inr []
      else case map_of (ms_metadata ms) p of
             None \<Rightarrow> Inr []
           | Some None \<Rightarrow> Inl AttributeError
           | Some (Some m) \<Rightarrow>
               if \<not> is_directory m then Inr []
               else sorted_by_path (collect_children p (ms_metadata ms) []))"

definition get_file_metadata :: "MetadataService \<Rightarrow> string \<Rightarrow> FileMetadata option" where
  "get_file_metadata ms p =
     (case map_of (ms_metadata ms) p of None \<Rightarrow> None | Some v \<Rightarrow> v)"

section \<open>DistributedFileSystem\<close>

record DistributedFileSystem =
  metadata_service :: MetadataService
  data_storage :: ContentAddressableStorage

definition DistributedFileSystem_init :: "real \<Rightarrow> DistributedFileSystem" where
  "DistributedFileSystem_init now =
     \<lparr>metadata_service = MetadataService_init ''node-1'' now,
      data_storage = ContentAddressableStorage_init\<rparr>"

definition fs_create_file ::
  "(bytes \<Rightarrow> string) \<Rightarrow> string \<Rightarrow> bytes \<Rightarrow> string \<Rightarrow> real \<Rightarrow> real \<Rightarrow> DistributedFileSystem
     \<Rightarrow> bool \<times> DistributedFileSystem"
where
  "fs_create_file H p content uid t_created t_stamp fs =
     (let (h, cas) = store H content (data_storage fs);
          (success, ms) = ms_create_file p h (int (length content)) uid t_created t_stamp
                            (metadata_service fs)
      in (success, fs\<lparr>metadata_service := ms, data_storage := cas\<rparr>))"

definition fs_read_file ::
  "(bytes \<Rightarrow> string) \<Rightarrow> DistributedFileSystem \<Rightarrow> string \<Rightarrow> error + bytes option"
where
  "fs_read_file H fs p =
     (case get_file_metadata (metadata_service fs) p of
        None \<Rightarrow> Inr None
      | Some m \<Rightarrow>
          if is_directory m then Inr None
          else retrieve H (data_storage fs) (content_hash m))"

definition fs_create_directory ::
  "string \<Rightarrow> string \<Rightarrow> real \<Rightarrow> DistributedFileSystem \<Rightarrow> bool \<times> DistributedFileSystem"
where
  "fs_create_directory p uid t_stamp fs =
     (let (success, ms) = ms_create_directory p uid t_stamp (metadata_service fs)
      in (success, fs\<lparr>metadata_service := ms\<rparr>))"

text \<open>The dictionaries built by the facade's \<^verbatim>\<open>list_directory\<close>, one field per key.\<close>

record DirEntry =
  de_name :: string
  de_path :: string
  de_type :: string
  de_size :: int
  de_created :: real

definition entry_dict :: "FileMetadata \<Rightarrow> DirEntry" where
  "entry_dict e =
     \<lparr>de_name = last (split CHR ''/'' (path e)),
      de_path = path e,
      de_type = (if is_directory e then ''directory'' else ''file''),
      de_size = size_f e,
      de_created = created_time e\<rparr>"

definition fs_list_directory :: "DistributedFileSystem \<Rightarrow> string \<Rightarrow> error + DirEntry list" where
  "fs_list_directory fs p =
     (case ms_list_directory (metadata_service fs) p of
        Inl e \<Rightarrow> Inl e
      | Inr entries \<Rightarrow> Inr (map entry_dict entries))"

section \<open>Runs and state predicates\<close>

text \<open>
  A run of the service: the operations of a list, proposed one after the other. The public
  \<^verbatim>\<open>create_file\<close> and \<^verbatim>\<open>create_directory\<close> are proposals of the operations they build.
\<close>

fun run_ops :: "Operation list \<Rightarrow> MetadataService \<Rightarrow> MetadataService" where
  "run_ops [] ms = ms"
| "run_ops (opn # ops) ms = run_ops ops (snd (propose_operation opn ms))"

definition delete_op :: "string \<Rightarrow> string \<Rightarrow> real \<Rightarrow> Operation" where
  "delete_op p uid t_stamp =
     \<lparr>op_id = uid, op_type = DELETE, op_path = p, op_metadata = None, op_timestamp = t_stamp\<rparr>"

text \<open>Every entry but the root has a parent entry that is a directory.\<close>

definition hierarchy_inv :: "namespace \<Rightarrow> bool" where
  "hierarchy_inv ns =
     list_all (\<lambda>kv. fst kv = ''/'' \<or>
                (case map_of ns (parent_directory (fst kv)) of
                   Some (Some m) \<Rightarrow> is_directory m
                 | _ \<Rightarrow> False)) ns"

text \<open>Every entry but the root has a parent entry.\<close>

definition parents_present :: "namespace \<Rightarrow> bool" where
  "parents_present ns =
     list_all (\<lambda>kv. fst kv = ''/'' \<or> parent_directory (fst kv) \<in> set (dict_keys ns)) ns"

definition has_children :: "namespace \<Rightarrow> string \<Rightarrow> bool" where
  "has_children ns p = list_ex (\<lambda>kv. fst kv \<noteq> p \<and> parent_directory (fst kv) = p) ns"

text \<open>A run in which every \<^verbatim>\<open>DELETE\<close> targets a path that has no child entry when proposed.\<close>

fun deletes_leaves_only :: "Operation list \<Rightarrow> MetadataService \<Rightarrow> bool" where
  "deletes_leaves_only [] ms = True"
| "deletes_leaves_only (opn # ops) ms =
     ((op_type opn = DELETE \<longrightarrow> \<not> has_children (ms_metadata ms) (op_path opn))
      \<and> deletes_leaves_only ops (snd (propose_operation opn ms)))"


text \<open>The hash of an entry is empty exactly when the entry is a directory.\<close>

definition hash_dir_ok :: "FileMetadata option \<Rightarrow> bool" where
  "hash_dir_ok v = (case v of None \<Rightarrow> False | Some m \<Rightarrow> (content_hash m = []) = is_directory m)"

definition hash_dir_inv :: "namespace \<Rightarrow> bool" where
  "hash_dir_inv ns = list_all (\<lambda>kv. hash_dir_ok (snd kv)) ns"

text \<open>
  A run of the facade: calls of \<^verbatim>\<open>create_file\<close> and \<^verbatim>\<open>create_directory\<close>, the two methods of
  \<^verbatim>\<open>DistributedFileSystem\<close> that change its state, with the identifiers and clock readings
  they draw.
\<close>

datatype fs_call =
  CreateFile string bytes string real real
  | CreateDirectory string string real

fun fs_step :: "(bytes \<Rightarrow> string) \<Rightarrow> fs_call \<Rightarrow> DistributedFileSystem \<Rightarrow> DistributedFileSystem" where
  "fs_step H (CreateFile p content uid t_created t_stamp) fs =
     snd (fs_create_file H p content uid t_created t_stamp fs)"
| "fs_step H (CreateDirectory p uid t_stamp) fs = snd (fs_create_directory p uid t_stamp fs)"

fun fs_run :: "(bytes \<Rightarrow> string) \<Rightarrow> fs_call list \<Rightarrow> DistributedFileSystem \<Rightarrow> DistributedFileSystem" where
  "fs_run H [] fs = fs"
| "fs_run H (c # cs) fs = fs_run H cs (fs_step H c fs)"

text \<open>Every key of the store is the digest of the bytes bound to it.\<close>

definition digest_keyed :: "(bytes \<Rightarrow> string) \<Rightarrow> ContentAddressableStorage \<Rightarrow> bool" where
  "digest_keyed H cas = (\<forall>k c. storage cas k = Some c \<longrightarrow> H c = k)"

section \<open>Properties of the content store\<close>

lemma digest_keyedD: "digest_keyed H cas \<Longrightarrow> storage cas k = Some c \<Longrightarrow> H c = k"
  unfolding digest_keyed_def by blast

lemma store_storage:
  "storage (snd (store H b cas)) =
     (if storage cas (H b) = None then (storage cas)(H b \<mapsto> b) else storage cas)"
  by (simp add: store_def Let_def)

lemma store_keeps_digest_keyed:
  assumes "digest_keyed H cas"
  shows "digest_keyed H (snd (store H b cas))"
  unfolding digest_keyed_def
proof (intro allI impI)
  fix k c
  assume bound: "storage (snd (store H b cas)) k = Some c"
  show "H c = k"
  proof (cases "storage cas (H b) = None \<and> k = H b")
    case True
    with bound have "c = b" by (simp add: store_storage)
    with True show ?thesis by simp
  next
    case False
    with bound have "storage cas k = Some c"
      by (auto simp: store_storage split: if_splits)
    with assms show ?thesis by (rule digest_keyedD)
  qed
qed

text \<open>
  In a store whose keys are the digests of their values, and for a content \<open>b\<close> whose
  digest no other content has, \<^verbatim>\<open>store(b)\<close> leaves \<open>b\<close> bound under its digest and under no
  other key.
\<close>

lemma store_one_copy:
  assumes keyed: "digest_keyed H cas"
    and nocoll: "\<forall>c. H c = H b \<longrightarrow> c = b"
  shows "{k. storage (snd (store H b cas)) k = Some b} = {H b}"
proof -
  have here: "storage (snd (store H b cas)) (H b) = Some b"
  proof (cases "storage cas (H b)")
    case None
    then show ?thesis by (simp add: store_storage)
  next
    case (Some c)
    with keyed have "H c = H b" by (rule digest_keyedD)
    with nocoll have "c = b" by blast
    with Some show ?thesis by (simp add: store_storage)
  qed
  have only: "k = H b" if "storage (snd (store H b cas)) k = Some b" for k
    using store_keeps_digest_keyed [OF keyed, of b] that by (rule digest_keyedD [symmetric])
  from here only show ?thesis by blast
qed

text \<open>
  C4 (deduplication is idempotent). For every byte sequence \<open>b\<close> and every store state,
  \<^verbatim>\<open>store(b)\<close> returns the digest of \<open>b\<close>, and a second \<^verbatim>\<open>store(b)\<close> returns the same digest
  and leaves the store as the first call left it: the same state, hence the same keys and
  the same number of keys. The first call binds \<open>b\<close> itself under its digest when the digest
  was unbound, and changes nothing when it was bound; no other key changes. In a store whose
  keys are the digests of their values and for a content whose digest no other content has,
  the store then holds \<open>b\<close> under exactly one key, its digest.
\<close>

theorem store_twice_same_digest_and_state:
  "fst (store H b cas) = H b
   \<and> store H b (snd (store H b cas)) = (H b, snd (store H b cas))
   \<and> storage (snd (store H b cas))
       = (if storage cas (H b) = None then (storage cas)(H b \<mapsto> b) else storage cas)
   \<and> (storage cas (H b) = None \<longrightarrow> storage (snd (store H b cas)) (H b) = Some b)
   \<and> (storage cas (H b) \<noteq> None \<longrightarrow> snd (store H b cas) = cas)
   \<and> storage (snd (store H b cas)) (H b) \<noteq> None
   \<and> dom (storage (snd (store H b (snd (store H b cas))))) = dom (storage (snd (store H b cas)))
   \<and> card (dom (storage (snd (store H b (snd (store H b cas))))))
       = card (dom (storage (snd (store H b cas))))
   \<and> (digest_keyed H cas \<and> (\<forall>c. H c = H b \<longrightarrow> c = b)
        \<longrightarrow> {k. storage (snd (store H b cas)) k = Some b} = {H b})"
proof -
  have a: "fst (store H b cas) = H b"
    by (simp add: store_def Let_def)
  have b: "store H b (snd (store H b cas)) = (H b, snd (store H b cas))"
    by (cases "storage cas (H b)") (simp_all add: store_def Let_def)
  have c: "storage cas (H b) = None \<longrightarrow> storage (snd (store H b cas)) (H b) = Some b"
    by (simp add: store_storage)
  have d: "storage cas (H b) \<noteq> None \<longrightarrow> snd (store H b cas) = cas"
    by (cases "storage cas (H b)") (simp_all add: store_def Let_def)
  have e: "storage (snd (store H b cas)) (H b) \<noteq> None"
    by (simp add: store_storage)
  have f: "digest_keyed H cas \<and> (\<forall>c. H c = H b \<longrightarrow> c = b)
        \<longrightarrow> {k. storage (snd (store H b cas)) k = Some b} = {H b}"
    using store_one_copy by blast
  have g: "storage (snd (store H b cas))
       = (if storage cas (H b) = None then (storage cas)(H b \<mapsto> b) else storage cas)"
    by (rule store_storage)
  have h: "dom (storage (snd (store H b (snd (store H b cas)))))
       = dom (storage (snd (store H b cas)))"
    by (simp only: b snd_conv)
  then have i: "card (dom (storage (snd (store H b (snd (store H b cas))))))
       = card (dom (storage (snd (store H b cas))))"
    by (rule arg_cong)
  from a b g c d e h i f show ?thesis
    by (intro conjI)
qed

theorem store_twice_same_digest_and_state_witness:
  "storage (snd (store (map (\<lambda>w. if w = 1 then CHR ''a'' else CHR ''z''))
                   [1, 1] \<lparr>storage = [''z'' \<mapsto> [2]]\<rparr>)) ''aa'' = Some [1, 1]
   \<and> {k. storage (snd (store (map (\<lambda>w. if w = 1 then CHR ''a'' else CHR ''z''))
                   [1, 1] \<lparr>storage = [''z'' \<mapsto> [2]]\<rparr>)) k = Some [1, 1]} = {''aa''}
   \<and> snd (store (map (\<lambda>w. if w = 1 then CHR ''a'' else CHR ''z''))
                   [2] \<lparr>storage = [''z'' \<mapsto> [2]]\<rparr>) = \<lparr>storage = [''z'' \<mapsto> [2]]\<rparr>"
proof -
  let ?H = "map (\<lambda>w::8 word. if w = 1 then CHR ''a'' else CHR ''z'')"
  let ?cas = "\<lparr>storage = [''z'' \<mapsto> [2::8 word]]\<rparr>"
  have unbound: "storage ?cas (?H [1, 1]) = None"
    by simp
  have bound: "storage ?cas (?H [2]) \<noteq> None"
    by simp
  have keyed: "digest_keyed ?H ?cas"
    by (simp add: digest_keyed_def)
  have nocoll: "\<forall>c. ?H c = ?H [1, 1] \<longrightarrow> c = [1, 1]"
    by (auto simp: map_eq_Cons_conv split: if_splits)
  have aa: "?H [1, 1] = ''aa''"
    by simp
  from unbound keyed nocoll store_twice_same_digest_and_state [of ?H "[1, 1]" ?cas]
  have "storage (snd (store ?H [1, 1] ?cas)) (?H [1, 1]) = Some [1, 1]
        \<and> {k. storage (snd (store ?H [1, 1] ?cas)) k = Some [1, 1]} = {?H [1, 1]}"
    by blast
  moreover from bound store_twice_same_digest_and_state [of ?H "[2]" ?cas]
  have "snd (store ?H [2] ?cas) = ?cas"
    by blast
  ultimately show ?thesis
    unfolding aa by blast
qed

text \<open>
  C5 (integrity check on retrieval). For every store state and key \<open>h\<close>: when \<open>h\<close> is bound
  to bytes whose digest differs from \<open>h\<close>, \<^verbatim>\<open>retrieve(h)\<close> raises (the \<^verbatim>\<open>ValueError\<close> of the
  integrity violation) and returns nothing; when the digest matches, it returns the stored
  bytes; when \<open>h\<close> is unbound, it returns \<^verbatim>\<open>None\<close>.
\<close>

theorem retrieve_three_outcomes:
  "(storage cas h = Some c \<and> H c \<noteq> h \<longrightarrow> retrieve H cas h = Inl ValueError)
   \<and> (storage cas h = Some c \<and> H c = h \<longrightarrow> retrieve H cas h = Inr (Some c))
   \<and> (storage cas h = None \<longrightarrow> retrieve H cas h = Inr None)"
  by (simp add: retrieve_def Let_def)

theorem retrieve_three_outcomes_witness:
  "retrieve (\<lambda>b. replicate (length b) CHR ''h'') \<lparr>storage = [''k'' \<mapsto> [1, 2]]\<rparr> ''k''
     = Inl ValueError
   \<and> retrieve (\<lambda>b. replicate (length b) CHR ''h'') \<lparr>storage = [''hh'' \<mapsto> [1, 2]]\<rparr> ''hh''
     = Inr (Some [1, 2])
   \<and> retrieve (\<lambda>b. replicate (length b) CHR ''h'') \<lparr>storage = [''hh'' \<mapsto> [1, 2]]\<rparr> ''k''
     = Inr None"
proof -
  let ?H = "\<lambda>b::bytes. replicate (length b) CHR ''h''"
  have a: "storage \<lparr>storage = [''k'' \<mapsto> [1, 2]]\<rparr> ''k'' = Some [1, 2::8 word]
           \<and> ?H [1, 2] \<noteq> ''k''"
    by simp
  have b: "storage \<lparr>storage = [''hh'' \<mapsto> [1, 2]]\<rparr> ''hh'' = Some [1, 2::8 word]
           \<and> ?H [1, 2] = ''hh''"
    by simp
  have c: "storage \<lparr>storage = [''hh'' \<mapsto> [1, 2::8 word]]\<rparr> ''k'' = None"
    by simp
  from a b c
    retrieve_three_outcomes [of "\<lparr>storage = [''k'' \<mapsto> [1, 2]]\<rparr>" "''k''" "[1, 2]" ?H]
    retrieve_three_outcomes [of "\<lparr>storage = [''hh'' \<mapsto> [1, 2]]\<rparr>" "''hh''" "[1, 2]" ?H]
    retrieve_three_outcomes [of "\<lparr>storage = [''hh'' \<mapsto> [1, 2]]\<rparr>" "''k''" "[1, 2]" ?H]
  show ?thesis by blast
qed

section \<open>Properties of the metadata service\<close>

lemma keys_dict_set: "set (dict_keys (dict_set k v d)) = insert k (set (dict_keys d))"
  by (induction d) (auto simp: dict_keys_def)

lemma dict_set_fresh: "k \<notin> set (dict_keys d) \<Longrightarrow> dict_set k v d = d @ [(k, v)]"
  by (induction d) (auto simp: dict_keys_def)

lemma keys_dict_del: "set (dict_keys (dict_del k d)) = set (dict_keys d) - {k}"
  by (auto simp: dict_keys_def dict_del_def)

lemma apply_operation_log:
  "apply_operation opn (ms\<lparr>ms_log := l\<rparr>)
     = (fst (apply_operation opn ms), (snd (apply_operation opn ms))\<lparr>ms_log := l\<rparr>)"
  by (cases "op_type opn") (simp_all add: apply_operation_def path_exists_def Let_def)

lemma apply_operation_keeps:
  "ms_log (snd (apply_operation opn ms)) = ms_log ms"
  "commit_index (snd (apply_operation opn ms)) = commit_index ms"
  "is_leader (snd (apply_operation opn ms)) = is_leader ms"
  "current_term (snd (apply_operation opn ms)) = current_term ms"
  "node_id (snd (apply_operation opn ms)) = node_id ms"
  by (cases "op_type opn"; simp add: apply_operation_def Let_def)+

lemma apply_operation_fails: "\<not> fst (apply_operation opn ms) \<Longrightarrow> snd (apply_operation opn ms) = ms"
  by (cases "op_type opn") (auto simp: apply_operation_def Let_def split: if_splits)

text \<open>
  \<^verbatim>\<open>propose_operation\<close> in one equation: a leader whose operation applies gets the applied
  namespace, the committed entry at the end of the log and the commit index on it; in every
  other case the state is the one before the call.
\<close>

lemma propose_operation_unfold:
  "propose_operation opn ms =
     (if is_leader ms \<and> fst (apply_operation opn ms)
      then (True, (snd (apply_operation opn ms))
                    \<lparr>ms_log := ms_log ms @ [\<lparr>entry_term = current_term ms, operation = opn,
                                             committed = True\<rparr>],
                     commit_index := int (length (ms_log ms))\<rparr>)
      else (False, ms))"
  by (simp add: propose_operation_def Let_def apply_operation_log apply_operation_keeps
        apply_operation_fails split: prod.splits)


lemma propose_is_leader: "is_leader (snd (propose_operation opn ms)) = is_leader ms"
  by (simp add: propose_operation_unfold apply_operation_keeps)





text \<open>The equations that evaluate a run on concrete operations.\<close>

lemmas run_eval = propose_operation_unfold apply_operation_def path_exists_def dict_keys_def
  MetadataService_init_def create_directory_op_def create_file_op_def delete_op_def
  parent_directory_def rstrip_def Let_def dict_del_def

lemma propose_metadata:
  "ms_metadata (snd (propose_operation opn ms)) =
     (if is_leader ms then ms_metadata (snd (apply_operation opn ms)) else ms_metadata ms)"
  by (simp add: propose_operation_unfold apply_operation_fails)

lemma apply_keeps_root:
  "path_exists ms ''/'' \<Longrightarrow> \<not> (op_type opn = DELETE \<and> op_path opn = ''/'') \<Longrightarrow>
   path_exists (snd (apply_operation opn ms)) ''/''"
  by (cases "op_type opn")
     (auto simp: apply_operation_def path_exists_def Let_def keys_dict_set keys_dict_del)

lemma propose_keeps_root:
  "path_exists ms ''/'' \<Longrightarrow> \<not> (op_type opn = DELETE \<and> op_path opn = ''/'') \<Longrightarrow>
   path_exists (snd (propose_operation opn ms)) ''/''"
  using apply_keeps_root [of ms opn]
  by (simp add: path_exists_def propose_metadata)

text \<open>
  C2, as amended (the root stays unless it is deleted). In every state reached from a fresh
  service by a run of proposals none of which is a \<^verbatim>\<open>DELETE\<close> of \<^verbatim>\<open>"/"\<close>, the root path is
  in the namespace. (A \<^verbatim>\<open>DELETE\<close> of \<^verbatim>\<open>"/"\<close> is applied like any other, see
  \<open>delete_root_counterexample\<close>.)
\<close>

theorem root_present_unless_deleted:
  "\<forall>opn \<in> set ops. \<not> (op_type opn = DELETE \<and> op_path opn = ''/'') \<Longrightarrow>
   path_exists (run_ops ops (MetadataService_init node now)) ''/''"
proof -
  have "path_exists ms ''/'' \<Longrightarrow>
        \<forall>opn \<in> set ops. \<not> (op_type opn = DELETE \<and> op_path opn = ''/'') \<Longrightarrow>
        path_exists (run_ops ops ms) ''/''" for ms
  proof (induction ops arbitrary: ms)
    case Nil
    then show ?case by simp
  next
    case (Cons opn ops)
    from Cons.prems have "path_exists (snd (propose_operation opn ms)) ''/''"
      by (intro propose_keeps_root) simp_all
    with Cons show ?case by simp
  qed
  moreover have "path_exists (MetadataService_init node now) ''/''"
    by (simp add: path_exists_def dict_keys_def MetadataService_init_def)
  ultimately show "\<forall>opn \<in> set ops. \<not> (op_type opn = DELETE \<and> op_path opn = ''/'') \<Longrightarrow>
   path_exists (run_ops ops (MetadataService_init node now)) ''/''" by blast
qed


theorem root_present_unless_deleted_witness:
  "path_exists (run_ops [create_directory_op ''/a'' ''u1'' 1, delete_op ''/a'' ''u2'' 2,
       create_file_op ''/f'' ''h'' 3 ''u3'' 3 3] (MetadataService_init ''node-1'' 0)) ''/''"
proof -
  have "\<forall>opn \<in> set [create_directory_op ''/a'' ''u1'' 1, delete_op ''/a'' ''u2'' 2,
       create_file_op ''/f'' ''h'' 3 ''u3'' 3 3]. \<not> (op_type opn = DELETE \<and> op_path opn = ''/'')"
    by (simp add: create_directory_op_def create_file_op_def delete_op_def)
  from root_present_unless_deleted [OF this] show ?thesis .
qed

text \<open>
  C2 as stated fails: proposing a \<^verbatim>\<open>DELETE\<close> of \<^verbatim>\<open>"/"\<close> to a fresh service removes the root.
\<close>

theorem delete_root_counterexample:
  "\<not> path_exists (run_ops [delete_op ''/'' ''u1'' 1] (MetadataService_init ''node-1'' 0)) ''/''"
  by (simp add: run_eval)

lemma parents_present_iff:
  "parents_present ns =
     (\<forall>k \<in> set (dict_keys ns). k = ''/'' \<or> parent_directory k \<in> set (dict_keys ns))"
  by (auto simp: parents_present_def dict_keys_def list_all_iff)

lemma has_children_iff:
  "has_children ns p = (\<exists>k \<in> set (dict_keys ns). k \<noteq> p \<and> parent_directory k = p)"
  by (auto simp: has_children_def dict_keys_def list_ex_iff)

lemma apply_keeps_parents_present:
  assumes "parents_present (ms_metadata ms)"
    and "op_type opn = DELETE \<longrightarrow> \<not> has_children (ms_metadata ms) (op_path opn)"
  shows "parents_present (ms_metadata (snd (apply_operation opn ms)))"
proof (cases "op_type opn")
  case CREATE_FILE
  with assms(1) show ?thesis
    by (auto simp: apply_operation_def Let_def path_exists_def parents_present_iff keys_dict_set)
next
  case CREATE_DIR
  with assms(1) show ?thesis
    by (auto simp: apply_operation_def Let_def path_exists_def parents_present_iff keys_dict_set)
next
  case DELETE
  with assms show ?thesis
    by (auto simp: apply_operation_def path_exists_def parents_present_iff has_children_iff
          keys_dict_del)
qed

lemma run_keeps_parents_present:
  "parents_present (ms_metadata ms) \<Longrightarrow> deletes_leaves_only ops ms \<Longrightarrow>
   parents_present (ms_metadata (run_ops ops ms))"
proof (induction ops arbitrary: ms)
  case Nil
  then show ?case by simp
next
  case (Cons opn ops)
  from Cons.prems have "parents_present (ms_metadata (snd (propose_operation opn ms)))"
    by (simp add: propose_metadata apply_keeps_parents_present)
  with Cons show ?case by simp
qed

lemma missing_parent_apply:
  "op_type opn \<noteq> DELETE \<Longrightarrow> \<not> path_exists ms (parent_directory (op_path opn)) \<Longrightarrow>
   apply_operation opn ms = (False, ms)"
  by (cases "op_type opn") (simp_all add: apply_operation_def Let_def)

text \<open>
  C1, as amended (parents are present while deletions hit leaves). In every state reached
  from a fresh service by a run of proposals in which no \<^verbatim>\<open>DELETE\<close> targets a path that has a
  child entry at that moment, every namespace entry except the root has a parent path that
  is in the namespace. A \<^verbatim>\<open>CREATE_FILE\<close> or \<^verbatim>\<open>CREATE_DIR\<close> whose parent path is absent is
  rejected and leaves the state, the namespace included, as it was.
\<close>

theorem parents_present_while_deletes_hit_leaves:
  "(deletes_leaves_only ops (MetadataService_init node now)
      \<longrightarrow> parents_present (ms_metadata (run_ops ops (MetadataService_init node now))))
   \<and> (op_type opn \<noteq> DELETE \<and> \<not> path_exists ms (parent_directory (op_path opn))
      \<longrightarrow> propose_operation opn ms = (False, ms))"
proof -
  have "parents_present (ms_metadata (MetadataService_init node now))"
    by (simp add: parents_present_def MetadataService_init_def)
  then have "deletes_leaves_only ops (MetadataService_init node now)
      \<longrightarrow> parents_present (ms_metadata (run_ops ops (MetadataService_init node now)))"
    using run_keeps_parents_present by blast
  moreover have "op_type opn \<noteq> DELETE \<and> \<not> path_exists ms (parent_directory (op_path opn))
      \<longrightarrow> propose_operation opn ms = (False, ms)"
    by (simp add: propose_operation_unfold missing_parent_apply)
  ultimately show ?thesis by blast
qed

theorem parents_present_while_deletes_hit_leaves_witness:
  "parents_present (ms_metadata (run_ops [create_directory_op ''/a'' ''u1'' 1,
       create_directory_op ''/a/b'' ''u2'' 2, delete_op ''/a/b'' ''u3'' 3,
       create_file_op ''/a/f'' ''abc'' 3 ''u4'' 4 4] (MetadataService_init ''node-1'' 0)))
   \<and> propose_operation (create_directory_op ''/a/b'' ''u1'' 1) (MetadataService_init ''node-1'' 0)
       = (False, MetadataService_init ''node-1'' 0)"
proof -
  let ?ops = "[create_directory_op ''/a'' ''u1'' 1,
       create_directory_op ''/a/b'' ''u2'' 2, delete_op ''/a/b'' ''u3'' 3,
       create_file_op ''/a/f'' ''abc'' 3 ''u4'' 4 4]"
  let ?i = "MetadataService_init ''node-1'' 0"
  let ?o = "create_directory_op ''/a/b'' ''u1'' 1"
  have a: "deletes_leaves_only ?ops ?i"
    by (simp add: run_eval has_children_def)
  have b: "op_type ?o \<noteq> DELETE \<and> \<not> path_exists ?i (parent_directory (op_path ?o))"
    by (simp add: run_eval)
  from a b parents_present_while_deletes_hit_leaves [of ?ops "''node-1''" 0 ?o ?i]
  show ?thesis by blast
qed

text \<open>
  C1 as stated fails: after creating \<^verbatim>\<open>/a\<close> and \<^verbatim>\<open>/a/b\<close> and deleting \<^verbatim>\<open>/a\<close>, which is
  applied without a look at the children, the entry \<^verbatim>\<open>/a/b\<close> is in the namespace and its
  parent is not.
\<close>

theorem orphan_after_delete_counterexample:
  "\<not> hierarchy_inv (ms_metadata (run_ops [create_directory_op ''/a'' ''u1'' 1,
       create_directory_op ''/a/b'' ''u2'' 2, delete_op ''/a'' ''u3'' 3]
       (MetadataService_init ''node-1'' 0)))"
  by (simp add: run_eval hierarchy_inv_def)

lemma hash_dir_inv_append: "hash_dir_inv (ns @ [(k, v)]) = (hash_dir_inv ns \<and> hash_dir_ok v)"
  by (simp add: hash_dir_inv_def)

lemma hash_dir_inv_del: "hash_dir_inv ns \<Longrightarrow> hash_dir_inv (dict_del k ns)"
  by (simp add: hash_dir_inv_def dict_del_def list_all_iff)

lemma apply_keeps_hash_dir_inv:
  assumes "hash_dir_inv (ms_metadata ms)"
    and "op_type opn = CREATE_FILE \<longrightarrow> hash_dir_ok (op_metadata opn)"
  shows "hash_dir_inv (ms_metadata (snd (apply_operation opn ms)))"
  using assms
  by (cases "op_type opn")
     (auto simp: apply_operation_def Let_def path_exists_def dict_set_fresh hash_dir_inv_append
        hash_dir_inv_del hash_dir_ok_def)

lemma run_keeps_hash_dir_inv:
  "hash_dir_inv (ms_metadata ms) \<Longrightarrow>
   \<forall>opn \<in> set ops. op_type opn = CREATE_FILE \<longrightarrow> hash_dir_ok (op_metadata opn) \<Longrightarrow>
   hash_dir_inv (ms_metadata (run_ops ops ms))"
proof (induction ops arbitrary: ms)
  case Nil
  then show ?case by simp
next
  case (Cons opn ops)
  from Cons.prems have "hash_dir_inv (ms_metadata (snd (propose_operation opn ms)))"
    by (simp add: propose_metadata apply_keeps_hash_dir_inv)
  with Cons show ?case by simp
qed

text \<open>
  C9, as amended (empty hash exactly for directories, for sound payloads). In every state
  reached from a fresh service by a run of proposals in which every \<^verbatim>\<open>CREATE_FILE\<close> carries
  metadata whose hash is empty exactly when its directory flag is set, every namespace
  entry has a hash that is empty exactly when it is a directory. The operation that
  \<^verbatim>\<open>create_file(path, content_hash, size)\<close> proposes is such a payload exactly when
  \<^verbatim>\<open>content_hash\<close> is not empty; \<^verbatim>\<open>create_directory\<close> and \<^verbatim>\<open>DELETE\<close> are not restricted.
\<close>

theorem hash_empty_iff_directory_for_sound_payloads:
  "((\<forall>opn \<in> set ops. op_type opn = CREATE_FILE \<longrightarrow> hash_dir_ok (op_metadata opn))
      \<longrightarrow> hash_dir_inv (ms_metadata (run_ops ops (MetadataService_init node now))))
   \<and> hash_dir_ok (op_metadata (create_file_op p h sz uid t_created t_stamp)) = (h \<noteq> [])"
proof -
  have "hash_dir_inv (ms_metadata (MetadataService_init node now))"
    by (simp add: hash_dir_inv_def hash_dir_ok_def MetadataService_init_def)
  then have "(\<forall>opn \<in> set ops. op_type opn = CREATE_FILE \<longrightarrow> hash_dir_ok (op_metadata opn))
      \<longrightarrow> hash_dir_inv (ms_metadata (run_ops ops (MetadataService_init node now)))"
    using run_keeps_hash_dir_inv by blast
  moreover have "hash_dir_ok (op_metadata (create_file_op p h sz uid t_created t_stamp)) = (h \<noteq> [])"
    by (simp add: hash_dir_ok_def create_file_op_def)
  ultimately show ?thesis by blast
qed

theorem hash_empty_iff_directory_for_sound_payloads_witness:
  "hash_dir_inv (ms_metadata (run_ops [create_directory_op ''/a'' ''u1'' 1,
       create_file_op ''/a/f'' ''abc'' 3 ''u2'' 2 2, delete_op ''/a'' ''u3'' 3]
       (MetadataService_init ''node-1'' 0)))
   \<and> hash_dir_ok (op_metadata (create_file_op ''/a/f'' ''abc'' 3 ''u2'' 2 2))"
proof -
  have "\<forall>opn \<in> set [create_directory_op ''/a'' ''u1'' 1,
       create_file_op ''/a/f'' ''abc'' 3 ''u2'' 2 2, delete_op ''/a'' ''u3'' 3].
       op_type opn = CREATE_FILE \<longrightarrow> hash_dir_ok (op_metadata opn)"
    by (simp add: create_directory_op_def create_file_op_def delete_op_def hash_dir_ok_def)
  with hash_empty_iff_directory_for_sound_payloads
         [of "[create_directory_op ''/a'' ''u1'' 1,
               create_file_op ''/a/f'' ''abc'' 3 ''u2'' 2 2, delete_op ''/a'' ''u3'' 3]"
             "''node-1''" 0 "''/a/f''" "''abc''" 3 "''u2''" 2 2]
  show ?thesis by simp
qed

text \<open>
  C9 as stated fails: \<^verbatim>\<open>create_file("/f", "", 0)\<close> on a fresh service succeeds and leaves an
  entry with an empty hash that is not a directory.
\<close>

theorem empty_hash_file_counterexample:
  "fst (ms_create_file ''/f'' '''' 0 ''u1'' 1 1 (MetadataService_init ''node-1'' 0))
   \<and> \<not> hash_dir_inv (ms_metadata (snd (ms_create_file ''/f'' '''' 0 ''u1'' 1 1
            (MetadataService_init ''node-1'' 0))))"
  by (simp add: ms_create_file_def run_eval hash_dir_inv_def hash_dir_ok_def)

section \<open>Directory listing\<close>

text \<open>The loop of \<^verbatim>\<open>list_directory\<close> collects, in dictionary order, the values under the keys
  other than \<open>p\<close> whose parent directory is \<open>p\<close>.\<close>

lemma collect_children_acc:
  "collect_children p ns acc =
     acc @ map snd (filter (\<lambda>kv. fst kv \<noteq> p \<and> parent_directory (fst kv) = p) ns)"
  by (induction p ns acc rule: collect_children.induct) auto

lemma sorted_by_path_total:
  "None \<notin> set children \<Longrightarrow>
   \<exists>r. sorted_by_path children = Inr r \<and> sorted (map path r)
        \<and> mset r = image_mset the (mset children)"
  by (simp add: sorted_by_path_def)

lemma path_exists_map_of: "path_exists ms p = (map_of (ms_metadata ms) p \<noteq> None)"
  by (simp add: path_exists_def dict_keys_def map_of_eq_None_iff)

text \<open>
  C7, as amended (listing a directory). For every namespace and path \<open>p\<close> such that the
  value under \<open>p\<close> is not \<^verbatim>\<open>None\<close> and, when \<open>p\<close> is bound to a directory, no key other than
  \<open>p\<close> whose parent directory is \<open>p\<close> has the value \<^verbatim>\<open>None\<close>: \<^verbatim>\<open>list_directory(p)\<close> raises
  no error and returns a list sorted by path in ascending lexicographic order. When \<open>p\<close> is
  bound to a directory, the list holds exactly the entries under the keys other than \<open>p\<close>
  whose parent directory is \<open>p\<close>, each once; when \<open>p\<close> is absent or bound to a
  non-directory, the list is empty.
\<close>

theorem list_directory_sorted_children:
  assumes own: "map_of (ms_metadata ms) p \<noteq> Some None"
    and kids: "\<forall>m. map_of (ms_metadata ms) p = Some (Some m) \<and> is_directory m \<longrightarrow>
                 (\<forall>kv \<in> set (ms_metadata ms).
                    fst kv \<noteq> p \<and> parent_directory (fst kv) = p \<longrightarrow> snd kv \<noteq> None)"
  shows "\<exists>r. ms_list_directory ms p = Inr r \<and> sorted (map path r) \<and>
           (if \<exists>m. map_of (ms_metadata ms) p = Some (Some m) \<and> is_directory m
            then mset r = image_mset (the \<circ> snd)
                   (filter_mset (\<lambda>kv. fst kv \<noteq> p \<and> parent_directory (fst kv) = p)
                      (mset (ms_metadata ms)))
            else r = [])"
proof (cases "map_of (ms_metadata ms) p")
  case None
  then show ?thesis
    by (simp add: ms_list_directory_def path_exists_map_of)
next
  case (Some v)
  with own obtain m where v: "v = Some m"
    by (cases v) simp_all
  show ?thesis
  proof (cases "is_directory m")
    case False
    with Some v show ?thesis
      by (simp add: ms_list_directory_def path_exists_map_of)
  next
    case True
    let ?children = "collect_children p (ms_metadata ms) []"
    have ch: "?children =
        map snd (filter (\<lambda>kv. fst kv \<noteq> p \<and> parent_directory (fst kv) = p) (ms_metadata ms))"
      by (simp add: collect_children_acc)
    from kids Some v True
    have "\<forall>kv \<in> set (ms_metadata ms).
            fst kv \<noteq> p \<and> parent_directory (fst kv) = p \<longrightarrow> snd kv \<noteq> None"
      by blast
    then have "None \<notin> set ?children"
      unfolding ch by force
    from sorted_by_path_total [OF this] obtain r where
      r: "sorted_by_path ?children = Inr r" "sorted (map path r)"
         "mset r = image_mset the (mset ?children)"
      by blast
    from r(3) have "mset r = image_mset (the \<circ> snd)
        (filter_mset (\<lambda>kv. fst kv \<noteq> p \<and> parent_directory (fst kv) = p) (mset (ms_metadata ms)))"
      by (simp add: ch multiset.map_comp flip: mset_filter mset_map)
    with r(1,2) Some v True show ?thesis
      by (simp add: ms_list_directory_def path_exists_map_of)
  qed
qed

theorem list_directory_sorted_children_witness:
  "ms_list_directory (run_ops [create_directory_op ''/projects'' ''u1'' 1,
       create_file_op ''/projects/b.txt'' ''h1'' 3 ''u2'' 2 2,
       \<lparr>op_id = ''u3'', op_type = CREATE_FILE, op_path = ''/top.txt'', op_metadata = None,
        op_timestamp = 3\<rparr>,
       create_file_op ''/projects/a.txt'' ''h3'' 5 ''u4'' 4 4]
       (MetadataService_init ''node-1'' 0)) ''/projects''
   = Inr [\<lparr>path = ''/projects/a.txt'', content_hash = ''h3'', size_f = 5, created_time = 4,
            is_directory = False\<rparr>,
          \<lparr>path = ''/projects/b.txt'', content_hash = ''h1'', size_f = 3, created_time = 2,
            is_directory = False\<rparr>]"
proof -
  define ms where "ms = run_ops [create_directory_op ''/projects'' ''u1'' 1,
       create_file_op ''/projects/b.txt'' ''h1'' 3 ''u2'' 2 2,
       \<lparr>op_id = ''u3'', op_type = CREATE_FILE, op_path = ''/top.txt'', op_metadata = None,
        op_timestamp = 3\<rparr>,
       create_file_op ''/projects/a.txt'' ''h3'' 5 ''u4'' 4 4]
       (MetadataService_init ''node-1'' 0)"
  have ns: "ms_metadata ms =
     [(''/'', Some \<lparr>path = ''/'', content_hash = [], size_f = 0, created_time = 0,
                    is_directory = True\<rparr>),
      (''/projects'', Some \<lparr>path = ''/projects'', content_hash = [], size_f = 0,
                    created_time = 1, is_directory = True\<rparr>),
      (''/projects/b.txt'', Some \<lparr>path = ''/projects/b.txt'', content_hash = ''h1'', size_f = 3,
                    created_time = 2, is_directory = False\<rparr>),
      (''/top.txt'', None),
      (''/projects/a.txt'', Some \<lparr>path = ''/projects/a.txt'', content_hash = ''h3'', size_f = 5,
                    created_time = 4, is_directory = False\<rparr>)]"
    by (simp add: ms_def run_eval)
  have pd: "parent_directory ''/'' = ''/''" "parent_directory ''/projects'' = ''/''"
    "parent_directory ''/projects/b.txt'' = ''/projects''" "parent_directory ''/top.txt'' = ''/''"
    "parent_directory ''/projects/a.txt'' = ''/projects''"
    by (simp_all add: parent_directory_def rstrip_def)
  have own: "map_of (ms_metadata ms) ''/projects'' \<noteq> Some None"
    unfolding ns by simp
  have kids: "\<forall>m. map_of (ms_metadata ms) ''/projects'' = Some (Some m) \<and> is_directory m \<longrightarrow>
                 (\<forall>kv \<in> set (ms_metadata ms).
                    fst kv \<noteq> ''/projects'' \<and> parent_directory (fst kv) = ''/projects''
                      \<longrightarrow> snd kv \<noteq> None)"
    unfolding ns by (simp add: pd)
  from list_directory_sorted_children [OF own kids] obtain r where
    r: "ms_list_directory ms ''/projects'' = Inr r"
    by blast
  have "ms_list_directory ms ''/projects'' =
      Inr [\<lparr>path = ''/projects/a.txt'', content_hash = ''h3'', size_f = 5, created_time = 4,
            is_directory = False\<rparr>,
          \<lparr>path = ''/projects/b.txt'', content_hash = ''h1'', size_f = 3, created_time = 2,
            is_directory = False\<rparr>]"
    by (simp add: ms_list_directory_def path_exists_def dict_keys_def ns sorted_by_path_def
          pd less_eq_char_def less_char_def)
  with r show ?thesis unfolding ms_def by simp
qed

text \<open>
  C7 as stated fails: \<^verbatim>\<open>propose_operation\<close> accepts a \<^verbatim>\<open>CREATE_FILE\<close> operation whose
  \<^verbatim>\<open>metadata\<close> is \<^verbatim>\<open>None\<close> and stores \<^verbatim>\<open>None\<close> under \<^verbatim>\<open>/x\<close>; \<^verbatim>\<open>list_directory("/")\<close> then
  raises \<^verbatim>\<open>AttributeError\<close> when the sort reads the path of that child, instead of returning
  a listing.
\<close>

theorem list_directory_none_child_counterexample:
  "fst (propose_operation
          \<lparr>op_id = ''u1'', op_type = CREATE_FILE, op_path = ''/x'', op_metadata = None,
           op_timestamp = 1\<rparr> (MetadataService_init ''node-1'' 0))
   \<and> ms_list_directory
        (snd (propose_operation
          \<lparr>op_id = ''u1'', op_type = CREATE_FILE, op_path = ''/x'', op_metadata = None,
           op_timestamp = 1\<rparr> (MetadataService_init ''node-1'' 0))) ''/''
      = Inl AttributeError"
  by (simp add: run_eval ms_list_directory_def sorted_by_path_def)

section \<open>Properties of the file system facade\<close>

lemma fs_step_data_storage:
  "data_storage (fs_step H (CreateFile p content uid t1 t2) fs)
     = snd (store H content (data_storage fs))"
  "data_storage (fs_step H (CreateDirectory p uid t) fs) = data_storage fs"
  by (simp_all add: fs_create_file_def fs_create_directory_def split: prod.splits)

lemma fs_step_keeps_digest_keyed:
  assumes "digest_keyed H (data_storage fs)"
  shows "digest_keyed H (data_storage (fs_step H call fs))"
proof (cases call)
  case (CreateFile p content uid t1 t2)
  from store_keeps_digest_keyed [OF assms] show ?thesis
    unfolding CreateFile fs_step_data_storage .
next
  case (CreateDirectory p uid t)
  from assms show ?thesis
    unfolding CreateDirectory fs_step_data_storage .
qed

lemma fs_run_keeps_digest_keyed:
  "digest_keyed H (data_storage fs) \<Longrightarrow> digest_keyed H (data_storage (fs_run H calls fs))"
proof (induction calls arbitrary: fs)
  case Nil
  then show ?case by simp
next
  case (Cons call calls)
  from Cons.IH [OF fs_step_keeps_digest_keyed [OF Cons.prems]] show ?case by simp
qed

lemma fresh_digest_keyed: "digest_keyed H (data_storage (DistributedFileSystem_init now))"
  by (simp add: digest_keyed_def DistributedFileSystem_init_def ContentAddressableStorage_init_def)

lemma map_of_dict_set: "map_of (dict_set k v d) k = Some v"
  by (induction d) auto

text \<open>
  Reading after a successful write: when every key of the store is the digest of its value
  and no other content has the digest of \<open>b\<close>, a \<^verbatim>\<open>create_file(p, b)\<close> that returns true is
  followed by a \<^verbatim>\<open>read_file(p)\<close> that returns \<open>b\<close>.
\<close>

lemma read_after_write:
  assumes keys: "digest_keyed H (data_storage fs)"
    and nocoll: "\<forall>c. H c = H b \<longrightarrow> c = b"
    and ok: "fst (fs_create_file H p b uid t1 t2 fs)"
  shows "fs_read_file H (snd (fs_create_file H p b uid t1 t2 fs)) p = Inr (Some b)"
proof -
  define cas where "cas = snd (store H b (data_storage fs))"
  define md where "md = \<lparr>path = p, content_hash = H b, size_f = int (length b),
                         created_time = t1, is_directory = False\<rparr>"
  define opn where "opn = create_file_op p (H b) (int (length b)) uid t1 t2"
  define ms where "ms = metadata_service fs"
  have st: "store H b (data_storage fs) = (H b, cas)"
    by (simp add: cas_def store_def Let_def)
  have cf: "fs_create_file H p b uid t1 t2 fs =
      (fst (propose_operation opn ms),
       fs\<lparr>metadata_service := snd (propose_operation opn ms), data_storage := cas\<rparr>)"
    by (simp add: fs_create_file_def st ms_create_file_def opn_def ms_def split: prod.splits)
  from ok have "fst (propose_operation opn ms)"
    by (simp add: cf)
  then have applied: "is_leader ms \<and> fst (apply_operation opn ms)"
    by (simp add: propose_operation_unfold split: if_splits)
  have opn: "op_type opn = CREATE_FILE" "op_path opn = p" "op_metadata opn = Some md"
    by (simp_all add: opn_def md_def create_file_op_def)
  from applied have "snd (apply_operation opn ms)
      = ms\<lparr>ms_metadata := dict_set p (Some md) (ms_metadata ms)\<rparr>"
    by (simp add: apply_operation_def opn Let_def split: if_splits)
  with applied have "ms_metadata (snd (propose_operation opn ms))
      = dict_set p (Some md) (ms_metadata ms)"
    by (simp add: propose_metadata)
  then have g: "get_file_metadata (snd (propose_operation opn ms)) p = Some md"
    by (simp add: get_file_metadata_def map_of_dict_set)
  have "storage cas (H b) = Some b"
  proof (cases "storage (data_storage fs) (H b)")
    case None
    then show ?thesis by (simp add: cas_def store_def Let_def)
  next
    case (Some c)
    with keys have "H c = H b" by (rule digest_keyedD)
    with nocoll have "c = b" by blast
    with Some show ?thesis by (simp add: cas_def store_def Let_def)
  qed
  then have "retrieve H cas (H b) = Inr (Some b)"
    by (simp add: retrieve_def Let_def)
  with g show ?thesis
    by (simp add: cf fs_read_file_def md_def)
qed

text \<open>
  C10 (an empty file is present, not missing). In every state the facade reaches from a
  fresh file system, for a digest function under which no other content has the digest of
  the empty byte sequence: when \<^verbatim>\<open>create_file(p, b"")\<close> returns true, the following
  \<^verbatim>\<open>read_file(p)\<close> returns the empty byte string, which is not the \<^verbatim>\<open>None\<close> of a missing path.
\<close>

theorem empty_file_reads_as_empty:
  assumes "\<forall>c. H c = H [] \<longrightarrow> c = []"
    and "fst (fs_create_file H p [] uid t1 t2 (fs_run H calls (DistributedFileSystem_init now)))"
  shows "fs_read_file H
           (snd (fs_create_file H p [] uid t1 t2 (fs_run H calls (DistributedFileSystem_init now)))) p
         = Inr (Some [])
       \<and> fs_read_file H
           (snd (fs_create_file H p [] uid t1 t2 (fs_run H calls (DistributedFileSystem_init now)))) p
         \<noteq> Inr None"
proof -
  have "digest_keyed H (data_storage (fs_run H calls (DistributedFileSystem_init now)))"
    by (rule fs_run_keeps_digest_keyed) (rule fresh_digest_keyed)
  from read_after_write [OF this assms] show ?thesis by simp
qed

text \<open>The equations that evaluate a run of the facade on concrete calls.\<close>

lemmas fs_eval = fs_create_file_def fs_create_directory_def ms_create_file_def
  ms_create_directory_def store_def DistributedFileSystem_init_def
  ContentAddressableStorage_init_def

theorem empty_file_reads_as_empty_witness:
  "fst (fs_create_file (\<lambda>b. replicate (length b) CHR ''h'') ''/projects/empty'' [] ''u3'' 3 3
          (fs_run (\<lambda>b. replicate (length b) CHR ''h'')
             [CreateDirectory ''/projects'' ''u1'' 1, CreateFile ''/projects/x'' [7, 8] ''u2'' 2 2]
             (DistributedFileSystem_init 0)))
   \<and> fs_read_file (\<lambda>b. replicate (length b) CHR ''h'')
        (snd (fs_create_file (\<lambda>b. replicate (length b) CHR ''h'') ''/projects/empty'' [] ''u3'' 3 3
          (fs_run (\<lambda>b. replicate (length b) CHR ''h'')
             [CreateDirectory ''/projects'' ''u1'' 1, CreateFile ''/projects/x'' [7, 8] ''u2'' 2 2]
             (DistributedFileSystem_init 0)))) ''/projects/empty''
       = Inr (Some [])"
proof -
  let ?H = "\<lambda>b::bytes. replicate (length b) CHR ''h''"
  let ?calls = "[CreateDirectory ''/projects'' ''u1'' 1, CreateFile ''/projects/x'' [7, 8] ''u2'' 2 2]"
  have nocoll: "\<forall>c. ?H c = ?H [] \<longrightarrow> c = []"
    by simp
  have ok: "fst (fs_create_file ?H ''/projects/empty'' [] ''u3'' 3 3
                  (fs_run ?H ?calls (DistributedFileSystem_init 0)))"
    by (simp add: fs_eval run_eval)
  from ok empty_file_reads_as_empty [OF nocoll ok] show ?thesis by blast
qed

text \<open>
  C3 (read after write, and the listing of the parent). On a fresh file system, for every
  digest function: \<^verbatim>\<open>create_file("/f", b"x")\<close> returns true, then
  \<^verbatim>\<open>create_file("/f/g", b"y")\<close> returns true, because \<^verbatim>\<open>_apply_operation\<close> only checks that
  the parent path \<^verbatim>\<open>/f\<close> exists, not that it is a directory; \<^verbatim>\<open>list_directory("/f")\<close>,
  which does check, then returns the empty list, so the listing of the parent does not
  include the file just created.
\<close>

theorem child_of_file_is_not_listed:
  "fst (fs_create_file H ''/f'' [120] ''u1'' 1 1 (DistributedFileSystem_init 0))
   \<and> fst (fs_create_file H ''/f/g'' [121] ''u2'' 2 2
           (snd (fs_create_file H ''/f'' [120] ''u1'' 1 1 (DistributedFileSystem_init 0))))
   \<and> parent_directory ''/f/g'' = ''/f''
   \<and> fs_list_directory
         (snd (fs_create_file H ''/f/g'' [121] ''u2'' 2 2
           (snd (fs_create_file H ''/f'' [120] ''u1'' 1 1 (DistributedFileSystem_init 0)))))
         ''/f'' = Inr []"
proof -
  define fs1 where "fs1 = snd (fs_create_file H ''/f'' [120] ''u1'' 1 1 (DistributedFileSystem_init 0))"
  define r where "r = fs_create_file H ''/f/g'' [121] ''u2'' 2 2 fs1"
  have a: "fst (fs_create_file H ''/f'' [120] ''u1'' 1 1 (DistributedFileSystem_init 0))"
    by (simp add: fs_eval run_eval)
  have ns1: "ms_metadata (metadata_service fs1) =
      [(''/'', Some \<lparr>path = ''/'', content_hash = [], size_f = 0, created_time = 0,
                     is_directory = True\<rparr>),
       (''/f'', Some \<lparr>path = ''/f'', content_hash = H [120], size_f = 1, created_time = 1,
                     is_directory = False\<rparr>)]"
    by (simp add: fs1_def fs_eval run_eval)
  have ld: "is_leader (metadata_service fs1)"
    by (simp add: fs1_def fs_eval run_eval)
  have pd: "parent_directory ''/f/g'' = ''/f''"
    by (simp add: parent_directory_def rstrip_def)
  have b: "fst r"
    by (simp add: r_def fs_create_file_def ms_create_file_def store_def Let_def
          propose_operation_unfold apply_operation_def create_file_op_def path_exists_def
          dict_keys_def ns1 ld pd split: prod.splits)
  have ns2: "ms_metadata (metadata_service (snd r)) =
      [(''/'', Some \<lparr>path = ''/'', content_hash = [], size_f = 0, created_time = 0,
                     is_directory = True\<rparr>),
       (''/f'', Some \<lparr>path = ''/f'', content_hash = H [120], size_f = 1, created_time = 1,
                     is_directory = False\<rparr>),
       (''/f/g'', Some \<lparr>path = ''/f/g'', content_hash = H [121], size_f = 1, created_time = 2,
                     is_directory = False\<rparr>)]"
    by (simp add: r_def fs_create_file_def ms_create_file_def store_def Let_def
          propose_operation_unfold apply_operation_def create_file_op_def path_exists_def
          dict_keys_def ns1 ld pd split: prod.splits)
  have c: "fs_list_directory (snd r) ''/f'' = Inr []"
    by (simp add: fs_list_directory_def ms_list_directory_def path_exists_def dict_keys_def ns2)
  from a b pd c show ?thesis
    unfolding r_def fs1_def by blast
qed

text \<open>
  C8, as amended (missing content reads as absent). For every state of the file system:
  \<^verbatim>\<open>read_file\<close> of a path whose metadata is a file with a hash that the content store does
  not hold returns \<^verbatim>\<open>None\<close>, and \<^verbatim>\<open>read_file\<close> of a path without metadata returns \<^verbatim>\<open>None\<close>:
  the two results are the same value.
\<close>

theorem missing_content_reads_as_absent:
  "get_file_metadata (metadata_service fs) p = Some m \<and> \<not> is_directory m
     \<and> storage (data_storage fs) (content_hash m) = None
     \<and> get_file_metadata (metadata_service fs) q = None
   \<longrightarrow> fs_read_file H fs p = Inr None \<and> fs_read_file H fs q = Inr None"
  by (simp add: fs_read_file_def retrieve_def)

theorem missing_content_reads_as_absent_witness:
  "fs_read_file (\<lambda>b. replicate (length b) CHR ''h'')
      \<lparr>metadata_service = snd (ms_create_file ''/f'' ''deadbeef'' 3 ''u1'' 1 1
                                 (MetadataService_init ''node-1'' 0)),
       data_storage = ContentAddressableStorage_init\<rparr> ''/f'' = Inr None
   \<and> fs_read_file (\<lambda>b. replicate (length b) CHR ''h'')
      \<lparr>metadata_service = snd (ms_create_file ''/f'' ''deadbeef'' 3 ''u1'' 1 1
                                 (MetadataService_init ''node-1'' 0)),
       data_storage = ContentAddressableStorage_init\<rparr> ''/g'' = Inr None"
proof -
  let ?H = "\<lambda>b::bytes. replicate (length b) CHR ''h''"
  let ?m = "\<lparr>path = ''/f'', content_hash = ''deadbeef'', size_f = 3, created_time = 1,
             is_directory = False\<rparr>"
  let ?fs = "\<lparr>metadata_service = snd (ms_create_file ''/f'' ''deadbeef'' 3 ''u1'' 1 1
                                 (MetadataService_init ''node-1'' 0)),
       data_storage = ContentAddressableStorage_init\<rparr>"
  have h: "get_file_metadata (metadata_service ?fs) ''/f'' = Some ?m \<and> \<not> is_directory ?m
     \<and> storage (data_storage ?fs) (content_hash ?m) = None
     \<and> get_file_metadata (metadata_service ?fs) ''/g'' = None"
    by (simp add: get_file_metadata_def ms_create_file_def run_eval
          ContentAddressableStorage_init_def)
  from h missing_content_reads_as_absent [of ?fs "''/f''" ?m "''/g''" ?H]
  show ?thesis by blast
qed

text \<open>
  C8 as stated fails: a file whose content is not in the store and a path that does not
  exist give the same result, so a caller cannot tell them apart.
\<close>

theorem missing_content_indistinguishable_counterexample:
  "get_file_metadata
      (snd (ms_create_file ''/f'' ''deadbeef'' 3 ''u1'' 1 1 (MetadataService_init ''node-1'' 0)))
      ''/f'' \<noteq> None
   \<and> get_file_metadata
      (snd (ms_create_file ''/f'' ''deadbeef'' 3 ''u1'' 1 1 (MetadataService_init ''node-1'' 0)))
      ''/g'' = None
   \<and> storage ContentAddressableStorage_init ''deadbeef'' = None
   \<and> fs_read_file (\<lambda>b. replicate (length b) CHR ''h'')
      \<lparr>metadata_service = snd (ms_create_file ''/f'' ''deadbeef'' 3 ''u1'' 1 1
                                 (MetadataService_init ''node-1'' 0)),
       data_storage = ContentAddressableStorage_init\<rparr> ''/f''
     = fs_read_file (\<lambda>b. replicate (length b) CHR ''h'')
      \<lparr>metadata_service = snd (ms_create_file ''/f'' ''deadbeef'' 3 ''u1'' 1 1
                                 (MetadataService_init ''node-1'' 0)),
       data_storage = ContentAddressableStorage_init\<rparr> ''/g''"
  by (simp add: fs_read_file_def retrieve_def get_file_metadata_def ms_create_file_def run_eval
        ContentAddressableStorage_init_def)

text \<open>
  The listing half of reading after writing, where the parent is a directory: in a
  namespace whose values are metadata records, a \<^verbatim>\<open>create_file(p, b)\<close> that returns true
  under a parent bound to a directory is followed by a \<^verbatim>\<open>list_directory\<close> of the parent
  that holds an entry with path \<open>p\<close> and size the length of \<open>b\<close>.
\<close>

lemma created_file_is_listed:
  assumes typed: "None \<notin> snd ` set (ms_metadata (metadata_service fs))"
    and ok: "fst (fs_create_file H p b uid t1 t2 fs)"
    and parent: "map_of (ms_metadata (metadata_service fs)) (parent_directory p) = Some (Some d)"
    and dir: "is_directory d"
  shows "\<exists>es. fs_list_directory (snd (fs_create_file H p b uid t1 t2 fs)) (parent_directory p)
                = Inr es
              \<and> (\<exists>e \<in> set es. de_path e = p \<and> de_size e = int (length b))"
proof -
  define q where "q = parent_directory p"
  define md where "md = \<lparr>path = p, content_hash = H b, size_f = int (length b),
                         created_time = t1, is_directory = False\<rparr>"
  define opn where "opn = create_file_op p (H b) (int (length b)) uid t1 t2"
  define ms where "ms = metadata_service fs"
  define ns where "ns = ms_metadata ms"
  have cf: "fs_create_file H p b uid t1 t2 fs =
      (fst (propose_operation opn ms),
       fs\<lparr>metadata_service := snd (propose_operation opn ms),
          data_storage := snd (store H b (data_storage fs))\<rparr>)"
    by (simp add: fs_create_file_def store_def ms_create_file_def opn_def ms_def Let_def
          split: prod.splits)
  from ok have "fst (propose_operation opn ms)"
    by (simp add: cf)
  then have applied: "is_leader ms \<and> fst (apply_operation opn ms)"
    by (simp add: propose_operation_unfold split: if_splits)
  have opn: "op_type opn = CREATE_FILE" "op_path opn = p" "op_metadata opn = Some md"
    by (simp_all add: opn_def md_def create_file_op_def)
  from applied have fresh: "p \<notin> set (dict_keys ns)"
    by (auto simp: apply_operation_def opn Let_def path_exists_def ns_def split: if_splits)
  from applied have "snd (apply_operation opn ms)
      = ms\<lparr>ms_metadata := dict_set p (Some md) ns\<rparr>"
    by (simp add: apply_operation_def opn Let_def ns_def split: if_splits)
  with applied fresh have ns': "ms_metadata (snd (propose_operation opn ms)) = ns @ [(p, Some md)]"
    by (simp add: propose_metadata dict_set_fresh)
  from parent have qd: "map_of ns q = Some (Some d)"
    by (simp add: q_def ns_def ms_def)
  then have "q \<in> set (dict_keys ns)"
    by (auto simp: dict_keys_def dest: map_of_SomeD intro: rev_image_eqI)
  with fresh have pq: "p \<noteq> q"
    by auto
  from qd have lookup: "map_of (ns @ [(p, Some md)]) q = Some (Some d)"
    by (simp add: map_add_Some_iff)
  define children where "children =
      map snd (filter (\<lambda>kv. fst kv \<noteq> q \<and> parent_directory (fst kv) = q) ns) @ [Some md]"
  have coll: "collect_children q (ns @ [(p, Some md)]) [] = children"
    using pq by (simp add: collect_children_acc children_def q_def)
  from typed have "None \<notin> set children"
    by (auto simp: children_def ns_def ms_def)
  then have srt: "sorted_by_path children = Inr (sort_key path (map the children))"
    by (simp add: sorted_by_path_def)
  have "path_exists (snd (propose_operation opn ms)) q"
    using lookup by (simp add: path_exists_map_of ns')
  with lookup dir srt coll
  have ls: "ms_list_directory (snd (propose_operation opn ms)) q
      = Inr (sort_key path (map the children))"
    by (simp add: ms_list_directory_def ns')
  have "md \<in> set (sort_key path (map the children))"
    by (simp add: children_def)
  then have "entry_dict md \<in> set (map entry_dict (sort_key path (map the children)))"
    unfolding set_map by (rule imageI)
  moreover have "de_path (entry_dict md) = p \<and> de_size (entry_dict md) = int (length b)"
    by (simp add: entry_dict_def md_def)
  moreover have "fs_list_directory (snd (fs_create_file H p b uid t1 t2 fs)) q
      = Inr (map entry_dict (sort_key path (map the children)))"
    by (simp add: cf fs_list_directory_def ls)
  ultimately show ?thesis
    unfolding q_def by blast
qed

end
